theory Spec2Isabelle
  imports Main "HOL-Library.Word"
begin

section \<open>The catalog (database/database_manager.py)\<close>

text \<open>
  One row of the SQLite table \<^verbatim>\<open>files\<close>. The column \<^verbatim>\<open>type\<close> only ever holds the
  three strings the Scanner writes, the column \<^verbatim>\<open>status\<close> the five strings named in
  the docstring of \<^verbatim>\<open>insert_file\<close>; both are datatypes here. The columns \<^verbatim>\<open>id\<close>,
  \<^verbatim>\<open>name\<close>, \<^verbatim>\<open>path\<close>, \<^verbatim>\<open>size\<close>, \<^verbatim>\<open>type\<close>, \<^verbatim>\<open>status\<close> and \<^verbatim>\<open>hash\<close> carry the
  prefix \<open>file_\<close> (or the suffix \<open>_value\<close>) because the bare names are taken in HOL.
\<close>

datatype kind = KFile | KFolder | KSymlink

datatype status = Pending | Selected | Copying | Success | Failed

record file_row =
  file_id :: int
  file_name :: string
  file_path :: string
  file_size :: int
  file_type :: kind
  file_status :: status
  parent_id :: "int option"
  hash_value :: "string option"
  is_symlink :: int
  content_owner_id :: "int option"

text \<open>
  The table is the list of its rows in insertion order, which is the order in which
  \<^verbatim>\<open>SELECT * FROM files\<close> returns them. Reading the table is taken to work, and so
  is inserting, up to the uniqueness constraint on \<^verbatim>\<open>path\<close> in \<open>insert_file\<close>.
\<close>

type_synonym catalog = "file_row list"

text \<open>
  The three update methods each run one \<^verbatim>\<open>UPDATE\<close> statement, catch \<^verbatim>\<open>sqlite3.Error\<close>,
  log it and return; their callers carry on without noticing. Whether the database
  commits a write is a parameter: \<open>commits n\<close> says that the \<open>n\<close>-th write a pass
  issues (counted from 0) is committed. A write that is not committed leaves the
  table as it was.
\<close>

type_synonym sqlite = "nat \<Rightarrow> bool"

definition get_all_files :: "catalog \<Rightarrow> file_row list" where
  "get_all_files db = db"

definition get_file_by_path :: "catalog \<Rightarrow> string \<Rightarrow> file_row option" where
  "get_file_by_path db p = List.find (\<lambda>r. file_path r = p) db"

definition update_file_status ::
  "sqlite \<Rightarrow> nat \<Rightarrow> catalog \<Rightarrow> int \<Rightarrow> status \<Rightarrow> catalog" where
  "update_file_status commits n db i st =
     (if commits n
      then map (\<lambda>r. if file_id r = i then r\<lparr>file_status := st\<rparr> else r) db
      else db)"

definition update_file_hash ::
  "sqlite \<Rightarrow> nat \<Rightarrow> catalog \<Rightarrow> int \<Rightarrow> string option \<Rightarrow> catalog" where
  "update_file_hash commits n db i h =
     (if commits n
      then map (\<lambda>r. if file_id r = i then r\<lparr>hash_value := h\<rparr> else r) db
      else db)"

definition update_file_content_owner ::
  "sqlite \<Rightarrow> nat \<Rightarrow> catalog \<Rightarrow> int \<Rightarrow> int option \<Rightarrow> catalog" where
  "update_file_content_owner commits n db i ow =
     (if commits n
      then map (\<lambda>r. if file_id r = i then r\<lparr>content_owner_id := ow\<rparr> else r) db
      else db)"

text \<open>
  \<^verbatim>\<open>AUTOINCREMENT\<close> hands out one more than the largest id used so far, starting at 1.
  Nothing in the repository deletes rows, so that is the largest id in the table.
\<close>

definition next_id :: "catalog \<Rightarrow> int" where
  "next_id db = fold max (map file_id db) 0 + 1"

definition insert_file ::
  "catalog \<Rightarrow> string \<Rightarrow> string \<Rightarrow> int \<Rightarrow> kind \<Rightarrow> status \<Rightarrow> int option \<Rightarrow>
   string option \<Rightarrow> int \<Rightarrow> int option \<Rightarrow> catalog" where
  "insert_file db name path sz ftype st parent hash_v is_sym owner =
     (if \<exists>r \<in> set db. file_path r = path then db
      else db @ [\<lparr>file_id = next_id db, file_name = name, file_path = path,
                  file_size = sz, file_type = ftype, file_status = st,
                  parent_id = parent, hash_value = hash_v, is_symlink = is_sym,
                  content_owner_id = owner\<rparr>])"

section \<open>The hash calculator (utils/hash_calculator.py)\<close>

text \<open>
  A file's content is a list of bytes; \<open>fs p = None\<close> says that opening or reading
  \<open>p\<close> raises. \<^verbatim>\<open>hashlib.sha256\<close> is a parameter \<open>sha\<close>: the hasher object is the
  list of bytes fed to it so far, and \<^verbatim>\<open>hexdigest\<close> applies \<open>sha\<close> to that list.
\<close>

type_synonym bytes = "8 word list"

type_synonym filesystem = "string \<Rightarrow> bytes option"

text \<open>
  The exceptions that occur. \<open>OSError\<close> stands for \<^verbatim>\<open>OSError\<close> and its subclasses
  (\<^verbatim>\<open>FileNotFoundError\<close>, \<^verbatim>\<open>FileExistsError\<close>, \<^verbatim>\<open>PermissionError\<close> and the like), which
  an \<^verbatim>\<open>except OSError\<close> clause catches alike.
\<close>

datatype exn = OSError | TypeError | ValueError | RecursionError

text \<open>
  The loop \<^verbatim>\<open>while True: chunk = f.read(4096); if not chunk: break; hasher.update(chunk)\<close>,
  on the unread rest of the file.
\<close>

function read_chunks :: "bytes \<Rightarrow> bytes \<Rightarrow> bytes" where
  "read_chunks hasher rest =
     (let chunk = take 4096 rest
      in if chunk = [] then hasher
         else read_chunks (hasher @ chunk) (drop 4096 rest))"
  by pat_completeness auto
termination
  by (relation "measure (\<lambda>(hasher, rest). length rest)") auto

declare read_chunks.simps [simp del]

text \<open>
  \<open>calculate_full_hash\<close> and \<open>calculate_partial_hash\<close> are the methods
  \<^verbatim>\<open>_calculate_full_hash\<close> and \<^verbatim>\<open>_calculate_partial_hash\<close>. The first lets the
  exception of a failed read pass to its caller.
\<close>

definition calculate_full_hash ::
  "(bytes \<Rightarrow> string) \<Rightarrow> filesystem \<Rightarrow> string \<Rightarrow> exn + string" where
  "calculate_full_hash sha fs path =
     (case fs path of
        None \<Rightarrow> Inl OSError
      | Some content \<Rightarrow> Inr (sha (read_chunks [] content)))"

text \<open>\<^verbatim>\<open>f.seek(pos); f.read(n)\<close> on a file of the given content.\<close>

definition read_at :: "bytes \<Rightarrow> int \<Rightarrow> int \<Rightarrow> bytes" where
  "read_at content pos n = take (nat n) (drop (nat pos) content)"

text \<open>
  \<^verbatim>\<open>os.path.getsize\<close> is the length of the content. Every exception inside is caught
  and turned into the result \<^verbatim>\<open>None\<close>.
\<close>

definition calculate_partial_hash ::
  "(bytes \<Rightarrow> string) \<Rightarrow> filesystem \<Rightarrow> string \<Rightarrow> string option" where
  "calculate_partial_hash sha fs path =
     (case fs path of
        None \<Rightarrow> None
      | Some content \<Rightarrow>
          let chunk_size = 100 * 1024;
              getsize = int (length content);
              hasher1 = read_at content 0 chunk_size;
              hasher2 = hasher1 @ read_at content (max 0 (getsize div 2 - chunk_size div 2)) chunk_size;
              hasher3 = hasher2 @ read_at content (max 0 (getsize - chunk_size)) chunk_size
          in Some (sha hasher3))"

definition calculate_hash ::
  "(bytes \<Rightarrow> string) \<Rightarrow> filesystem \<Rightarrow> string \<Rightarrow> int \<Rightarrow> string option" where
  "calculate_hash sha fs path sz =
     (if sz < 1024 * 1024
      then (case calculate_full_hash sha fs path of
              Inl e \<Rightarrow> None
            | Inr hash_v \<Rightarrow> Some hash_v)
      else calculate_partial_hash sha fs path)"

text \<open>A digest that keeps every byte, to run the calculator on concrete files.\<close>

definition demo_sha :: "bytes \<Rightarrow> string" where
  "demo_sha bs = map (\<lambda>b. char_of (unat b)) bs"

section \<open>The duplicate detector (core/file_scanner.py, find_duplicates)\<close>

text \<open>
  The guard of the loop body: \<^verbatim>\<open>file["type"] == "file" and file["size"] > size_threshold\<close>.
\<close>

definition above_threshold :: "int \<Rightarrow> file_row \<Rightarrow> bool" where
  "above_threshold size_threshold file \<longleftrightarrow>
     file_type file = KFile \<and> file_size file > size_threshold"

text \<open>
  The loop over the snapshot \<^verbatim>\<open>files\<close>, threading the dictionary \<^verbatim>\<open>hashes\<close>, the
  number of writes issued so far and the table. \<open>calc\<close> is
  \<^verbatim>\<open>hash_calculator.calculate_hash\<close>, which the caller passes in; it returns \<^verbatim>\<open>None\<close>
  instead of raising, and the update methods swallow their errors, so the keys of
  \<^verbatim>\<open>hashes\<close> are optional strings and the \<^verbatim>\<open>except\<close> clause around the body is never
  entered. The dictionary is updated whether or not the writes were committed. The
  progress reporter only draws on the window and is left out.
\<close>

fun find_duplicates_loop ::
  "int \<Rightarrow> (string \<Rightarrow> int \<Rightarrow> string option) \<Rightarrow> sqlite \<Rightarrow> file_row list \<Rightarrow>
   (string option \<rightharpoonup> int) \<Rightarrow> nat \<Rightarrow> catalog \<Rightarrow> catalog" where
  "find_duplicates_loop size_threshold calc commits [] hashes n db = db"
| "find_duplicates_loop size_threshold calc commits (file # files) hashes n db =
     (if above_threshold size_threshold file then
        (let hash_v = calc (file_path file) (file_size file);
             db1 = update_file_hash commits n db (file_id file) hash_v
         in case hashes hash_v of
              Some original_file_id \<Rightarrow>
                find_duplicates_loop size_threshold calc commits files hashes (n + 2)
                  (update_file_content_owner commits (n + 1) db1 (file_id file)
                     (Some original_file_id))
            | None \<Rightarrow>
                find_duplicates_loop size_threshold calc commits files
                  (hashes(hash_v \<mapsto> file_id file)) (n + 1) db1)
      else find_duplicates_loop size_threshold calc commits files hashes n db)"

definition find_duplicates ::
  "int \<Rightarrow> (string \<Rightarrow> int \<Rightarrow> string option) \<Rightarrow> sqlite \<Rightarrow> catalog \<Rightarrow> catalog" where
  "find_duplicates size_threshold calc commits db =
     find_duplicates_loop size_threshold calc commits (get_all_files db) Map.empty 0 db"

section \<open>The scanner (core/file_scanner.py, scan_directory and add_entry_to_database)\<close>

text \<open>
  What the scanner reads of an \<^verbatim>\<open>os.DirEntry\<close>: its name, its path, and the result
  of \<^verbatim>\<open>entry.stat()\<close>, which is the \<^verbatim>\<open>st_size\<close> or an exception.
\<close>

record dir_entry =
  entry_name :: string
  entry_path :: string
  entry_stat :: "exn + int"

text \<open>
  Returns the id the function returns (\<^verbatim>\<open>None\<close> after an exception or when the row
  cannot be read back) and the table. An insert that violates the uniqueness of
  \<^verbatim>\<open>path\<close> is logged inside \<open>insert_file\<close> and leaves the table as it was.
\<close>

definition add_entry_to_database ::
  "catalog \<Rightarrow> dir_entry \<Rightarrow> kind \<Rightarrow> int option \<Rightarrow> int \<Rightarrow> int option \<times> catalog" where
  "add_entry_to_database db entry ftype parent is_sym =
     (case (if ftype \<noteq> KSymlink then entry_stat entry else Inr 0) of
        Inl e \<Rightarrow> (None, db)
      | Inr sz \<Rightarrow>
          let db1 = insert_file db (entry_name entry) (entry_path entry) sz ftype Pending
                      parent None is_sym None
          in (case get_file_by_path db1 (entry_path entry) of
                Some file_data \<Rightarrow> (Some (file_id file_data), db1)
              | None \<Rightarrow> (None, db1)))"

text \<open>
  What \<^verbatim>\<open>os.scandir\<close> yields for one child of a directory: the entry, the answers of
  \<^verbatim>\<open>entry.is_dir()\<close>, \<^verbatim>\<open>entry.is_file()\<close> and \<^verbatim>\<open>entry.is_symlink()\<close>, and, for the
  recursive call, the listing of the child itself, which is \<^verbatim>\<open>None\<close> when
  \<^verbatim>\<open>os.scandir\<close> raises on it.
\<close>

datatype fs_node =
  FsNode (node_entry: dir_entry) (node_is_dir: bool) (node_is_file: bool)
    (node_is_symlink: bool) (node_listing: "fs_node list option")

text \<open>
  \<open>scan_directory\<close> on the listing of its path: an exception of \<^verbatim>\<open>os.scandir\<close> is
  logged and nothing is added. \<open>scan_entries\<close> is the \<^verbatim>\<open>for\<close> loop and \<open>scan_entry\<close>
  its body; nothing in the body raises, since \<open>add_entry_to_database\<close> and the
  recursive call catch every exception.
\<close>

fun scan_directory :: "fs_node list option \<Rightarrow> int option \<Rightarrow> catalog \<Rightarrow> catalog"
and scan_entries :: "fs_node list \<Rightarrow> int option \<Rightarrow> catalog \<Rightarrow> catalog"
and scan_entry :: "fs_node \<Rightarrow> int option \<Rightarrow> catalog \<Rightarrow> catalog" where
  "scan_directory None parent db = db"
| "scan_directory (Some entries) parent db = scan_entries entries parent db"
| "scan_entries [] parent db = db"
| "scan_entries (entry # entries) parent db =
     scan_entries entries parent (scan_entry entry parent db)"
| "scan_entry (FsNode entry is_dir is_file is_link listing) parent db =
     (if is_dir then
        (case add_entry_to_database db entry KFolder parent 0 of
           (new_id, db1) \<Rightarrow> scan_directory listing new_id db1)
      else if is_file then snd (add_entry_to_database db entry KFile parent 0)
      else if is_link then snd (add_entry_to_database db entry KSymlink parent 1)
      else db)"

section \<open>The backup manager (core/backup_manager.py)\<close>

text \<open>
  The configuration dictionary: \<^verbatim>\<open>config.get\<close> of a key that the environment does
  not set is \<^verbatim>\<open>None\<close>.
\<close>

record config =
  MOUNTED_PATH :: "string option"
  BACKUP_DESTINATION :: "string option"

text \<open>
  The mutating calls into the operating system, and the log of the calls made so far,
  each with the exception it raised, if any.
\<close>

datatype fs_op =
    Makedirs string
  | Symlink string string
  | Copy2 string string

type_synonym fs_log = "(fs_op \<times> exn option) list"

text \<open>
  The operating system, as far as the backup manager calls it. The string functions
  of \<^verbatim>\<open>os.path\<close> are parameters; \<open>relpath\<close> may raise (\<^verbatim>\<open>ValueError\<close>), and its second
  argument may be \<^verbatim>\<open>None\<close>. \<open>fs_outcome\<close> decides, from the calls made so far, whether
  a mutating call raises; \<open>disk_usage\<close> gives the free bytes of a path or raises.
  \<open>readlink\<close> tells where a symbolic link of the source tree points; it is part of
  the description of the machine only, since the backup manager never calls it.
  \<open>db_commits\<close> says which of the status writes of a pass the database commits.
  \<open>Symlink target link\<close> is \<^verbatim>\<open>os.symlink(target, link)\<close>, \<open>Copy2 src dst\<close> is
  \<^verbatim>\<open>shutil.copy2(src, dst)\<close>, \<open>Makedirs p\<close> is \<^verbatim>\<open>os.makedirs(p, exist_ok=True)\<close>.
\<close>

record os_env =
  path_join :: "string \<Rightarrow> string \<Rightarrow> string"
  relpath :: "string \<Rightarrow> string option \<Rightarrow> exn + string"
  dirname :: "string \<Rightarrow> string"
  fs_outcome :: "fs_log \<Rightarrow> fs_op \<Rightarrow> exn option"
  disk_usage :: "string \<Rightarrow> exn + int"
  readlink :: "string \<Rightarrow> string option"
  db_commits :: sqlite

definition os_call :: "os_env \<Rightarrow> fs_op \<Rightarrow> fs_log \<Rightarrow> exn option \<times> fs_log" where
  "os_call env op lg = (fs_outcome env lg op, lg @ [(op, fs_outcome env lg op)])"

text \<open>
  \<^verbatim>\<open>shutil.disk_usage(None)\<close> raises \<^verbatim>\<open>TypeError\<close>; every exception gives 0.
\<close>

definition get_free_space :: "os_env \<Rightarrow> string option \<Rightarrow> int" where
  "get_free_space env path =
     (case (case path of None \<Rightarrow> Inl TypeError | Some p \<Rightarrow> disk_usage env p) of
        Inl e \<Rightarrow> 0
      | Inr free \<Rightarrow> free)"

text \<open>
  \<^verbatim>\<open>os.path.join(backup_destination, os.path.relpath(path, config.get("MOUNTED_PATH")))\<close>:
  the inner call is evaluated first, and \<^verbatim>\<open>join\<close> raises \<^verbatim>\<open>TypeError\<close> on \<^verbatim>\<open>None\<close>.
\<close>

definition dest_path_of ::
  "os_env \<Rightarrow> config \<Rightarrow> string option \<Rightarrow> string \<Rightarrow> exn + string" where
  "dest_path_of env cfg backup_destination path =
     (case relpath env path (MOUNTED_PATH cfg) of
        Inl e \<Rightarrow> Inl e
      | Inr rel \<Rightarrow>
          (case backup_destination of
             None \<Rightarrow> Inl TypeError
           | Some d \<Rightarrow> Inr (path_join env d rel)))"

text \<open>The truth value of \<^verbatim>\<open>file.get("content_owner_id")\<close>: \<^verbatim>\<open>None\<close> and 0 are false.\<close>

definition truthy :: "int option \<Rightarrow> bool" where
  "truthy v = (case v of None \<Rightarrow> False | Some i \<Rightarrow> i \<noteq> 0)"

text \<open>
  \<open>copy_file\<close> and \<open>create_symlink\<close> call each other. The first argument is the
  number of stack frames left before the interpreter raises \<^verbatim>\<open>RecursionError\<close>, which
  no handler on the way swallows. Each returns the exception that leaves it, if any,
  and the log. The \<^verbatim>\<open>except Exception: raise\<close> clauses re-raise and so pass the
  exception on unchanged; \<^verbatim>\<open>except OSError\<close> of \<open>create_symlink\<close> calls \<open>copy_file\<close>.
\<close>

fun copy_file ::
  "nat \<Rightarrow> os_env \<Rightarrow> config \<Rightarrow> catalog \<Rightarrow> file_row \<Rightarrow> string \<Rightarrow> string \<Rightarrow>
   string option \<Rightarrow> fs_log \<Rightarrow> exn option \<times> fs_log"
and create_symlink ::
  "nat \<Rightarrow> os_env \<Rightarrow> config \<Rightarrow> catalog \<Rightarrow> file_row \<Rightarrow> string \<Rightarrow> string \<Rightarrow>
   fs_log \<Rightarrow> exn option \<times> fs_log" where
  "copy_file 0 env cfg db file src_path dest_path backup_destination lg =
     (Some RecursionError, lg)"
| "copy_file (Suc frames) env cfg db file src_path dest_path backup_destination lg =
     (case os_call env (Makedirs (dirname env dest_path)) lg of
        (Some e, lg1) \<Rightarrow> (Some e, lg1)
      | (None, lg1) \<Rightarrow>
          if truthy (content_owner_id file) then
            (case get_file_by_path db src_path of
               Some original_file \<Rightarrow>
                 (case dest_path_of env cfg backup_destination (file_path original_file) of
                    Inl e \<Rightarrow> (Some e, lg1)
                  | Inr original_dest_path \<Rightarrow>
                      create_symlink frames env cfg db file original_dest_path dest_path lg1)
             | None \<Rightarrow> os_call env (Copy2 src_path dest_path) lg1)
          else os_call env (Copy2 src_path dest_path) lg1)"
| "create_symlink 0 env cfg db file target_path link_path lg =
     (Some RecursionError, lg)"
| "create_symlink (Suc frames) env cfg db file target_path link_path lg =
     (case (case os_call env (Makedirs (dirname env link_path)) lg of
              (Some e, lg1) \<Rightarrow> (Some e, lg1)
            | (None, lg1) \<Rightarrow> os_call env (Symlink target_path link_path) lg1) of
        (None, lg2) \<Rightarrow> (None, lg2)
      | (Some e, lg2) \<Rightarrow>
          if e = OSError
          then copy_file frames env cfg db file target_path link_path (BACKUP_DESTINATION cfg) lg2
          else (Some e, lg2))"

definition copy_folder ::
  "os_env \<Rightarrow> string \<Rightarrow> string \<Rightarrow> fs_log \<Rightarrow> exn option \<times> fs_log" where
  "copy_folder env src_path dest_path lg = os_call env (Makedirs dest_path) lg"

text \<open>The state a backup pass works on: the table and the log of the calls made.\<close>

record world =
  catalog_of :: catalog
  log_of :: fs_log

text \<open>The body of the \<^verbatim>\<open>try\<close> block of \<open>backup_file\<close>: the dispatch on the type.\<close>

definition materialize ::
  "nat \<Rightarrow> os_env \<Rightarrow> config \<Rightarrow> catalog \<Rightarrow> file_row \<Rightarrow> string \<Rightarrow> string option \<Rightarrow>
   fs_log \<Rightarrow> exn option \<times> fs_log" where
  "materialize frames env cfg db file dest_path backup_destination lg =
     (case file_type file of
        KFile \<Rightarrow>
          copy_file frames env cfg db file (file_path file) dest_path backup_destination lg
      | KFolder \<Rightarrow> copy_folder env (file_path file) dest_path lg
      | KSymlink \<Rightarrow> create_symlink frames env cfg db file (file_path file) dest_path lg)"

text \<open>
  \<open>backup_file\<close> computes the destination path before its \<^verbatim>\<open>try\<close>, so an exception
  there leaves the function (\<open>Inl\<close>, with the state as it was); everything raised
  inside the \<^verbatim>\<open>try\<close> is caught and sets the status \<^verbatim>\<open>failed\<close>. It issues two status
  writes, the \<open>n\<close>-th and the next one of the pass.
\<close>

definition backup_file ::
  "nat \<Rightarrow> os_env \<Rightarrow> config \<Rightarrow> file_row \<Rightarrow> string option \<Rightarrow> nat \<Rightarrow> world \<Rightarrow>
   exn \<times> world + world" where
  "backup_file frames env cfg file backup_destination n w =
     (case dest_path_of env cfg backup_destination (file_path file) of
        Inl e \<Rightarrow> Inl (e, w)
      | Inr dest_path \<Rightarrow>
          let db1 = update_file_status (db_commits env) n (catalog_of w) (file_id file) Copying
          in (case materialize frames env cfg db1 file dest_path backup_destination (log_of w) of
                (None, lg) \<Rightarrow>
                  Inr \<lparr>catalog_of =
                         update_file_status (db_commits env) (Suc n) db1 (file_id file) Success,
                       log_of = lg\<rparr>
              | (Some e, lg) \<Rightarrow>
                  Inr \<lparr>catalog_of =
                         update_file_status (db_commits env) (Suc n) db1 (file_id file) Failed,
                       log_of = lg\<rparr>))"

text \<open>
  The loop of \<open>backup_files\<close> over the selection, from the \<open>n\<close>-th write of the pass on.
  The progress reporter, which only draws on the window, and the pause after each
  entry are left out.
\<close>

fun backup_files_loop ::
  "nat \<Rightarrow> os_env \<Rightarrow> config \<Rightarrow> string option \<Rightarrow> nat \<Rightarrow> file_row list \<Rightarrow> world \<Rightarrow>
   exn \<times> world + world" where
  "backup_files_loop frames env cfg backup_destination n [] w = Inr w"
| "backup_files_loop frames env cfg backup_destination n (file # files) w =
     (case backup_file frames env cfg file backup_destination n w of
        Inl ew \<Rightarrow> Inl ew
      | Inr w1 \<Rightarrow> backup_files_loop frames env cfg backup_destination (n + 2) files w1)"

definition backup_files ::
  "nat \<Rightarrow> os_env \<Rightarrow> config \<Rightarrow> file_row list \<Rightarrow> world \<Rightarrow> exn \<times> world + world" where
  "backup_files frames env cfg files w =
     backup_files_loop frames env cfg (BACKUP_DESTINATION cfg) 0 files w"

section \<open>The caller's precondition (gui/main_window.py, start_backup)\<close>

text \<open>
  \<open>start_backup\<close> asks \<^verbatim>\<open>self.db_manager.get_selected_files()\<close> for the selection, a
  method the database manager under src/ does not define; the selection is therefore
  a parameter. The message boxes are the two constructors that return the state.
\<close>

datatype start_result =
    NoFilesSelected world
  | InsufficientSpace world
  | BackupRan "exn \<times> world + world"

definition start_backup ::
  "nat \<Rightarrow> os_env \<Rightarrow> config \<Rightarrow> file_row list \<Rightarrow> world \<Rightarrow> start_result" where
  "start_backup frames env cfg selected_files w =
     (if selected_files = [] then NoFilesSelected w
      else
        let total_size = sum_list (map file_size selected_files);
            backup_destination = BACKUP_DESTINATION cfg;
            free_space = get_free_space env backup_destination
        in if free_space < total_size then InsufficientSpace w
           else BackupRan (backup_files frames env cfg selected_files w))"

section \<open>Auxiliary notions for the proofs\<close>

text \<open>
  One round of the detector's loop, seen from the dictionary, from the count of
  writes and from a single row of the table.
\<close>

definition hashes_step ::
  "int \<Rightarrow> (string \<Rightarrow> int \<Rightarrow> string option) \<Rightarrow> file_row \<Rightarrow>
   (string option \<rightharpoonup> int) \<Rightarrow> (string option \<rightharpoonup> int)" where
  "hashes_step size_threshold calc file hashes =
     (if above_threshold size_threshold file then
        (case hashes (calc (file_path file) (file_size file)) of
           Some original_file_id \<Rightarrow> hashes
         | None \<Rightarrow> hashes(calc (file_path file) (file_size file) \<mapsto> file_id file))
      else hashes)"

definition writes_step ::
  "int \<Rightarrow> (string \<Rightarrow> int \<Rightarrow> string option) \<Rightarrow> (string option \<rightharpoonup> int) \<Rightarrow>
   file_row \<Rightarrow> nat" where
  "writes_step size_threshold calc hashes file =
     (if above_threshold size_threshold file then
        (case hashes (calc (file_path file) (file_size file)) of
           Some original_file_id \<Rightarrow> 2
         | None \<Rightarrow> 1)
      else 0)"

definition row_step ::
  "int \<Rightarrow> (string \<Rightarrow> int \<Rightarrow> string option) \<Rightarrow> sqlite \<Rightarrow> nat \<Rightarrow>
   (string option \<rightharpoonup> int) \<Rightarrow> file_row \<Rightarrow> file_row \<Rightarrow> file_row" where
  "row_step size_threshold calc commits n hashes file r =
     (if above_threshold size_threshold file \<and> file_id r = file_id file then
        (let r1 = (if commits n
                   then r\<lparr>hash_value := calc (file_path file) (file_size file)\<rparr> else r)
         in case hashes (calc (file_path file) (file_size file)) of
              Some original_file_id \<Rightarrow>
                if commits (n + 1) then r1\<lparr>content_owner_id := Some original_file_id\<rparr> else r1
            | None \<Rightarrow> r1)
      else r)"

text \<open>Every row of kind symlink that the second table adds to the first has size 0.\<close>

definition links_added_empty :: "catalog \<Rightarrow> catalog \<Rightarrow> bool" where
  "links_added_empty db db' \<longleftrightarrow>
     (\<forall>row \<in> set db'. row \<notin> set db \<longrightarrow> (file_type row = KSymlink \<longrightarrow> file_size row = 0))"

text \<open>The status that \<open>backup_file\<close> records for what the \<^verbatim>\<open>try\<close> block raised.\<close>

definition outcome_status :: "exn option \<Rightarrow> status" where
  "outcome_status raised = (case raised of None \<Rightarrow> Success | Some e \<Rightarrow> Failed)"

text \<open>
  The ownership invariant of the specification: whenever a row carries a hash, the
  first row of the table with that hash has no owner, and every other row with that
  hash names it as its owner and is a different entry.
\<close>

definition first_with_hash :: "catalog \<Rightarrow> string \<Rightarrow> file_row option" where
  "first_with_hash db h = List.find (\<lambda>c. hash_value c = Some h) db"

definition ownership_invariant :: "catalog \<Rightarrow> bool" where
  "ownership_invariant db \<longleftrightarrow>
     (\<forall>r \<in> set db.
        case hash_value r of
          None \<Rightarrow> True
        | Some h \<Rightarrow>
            (case first_with_hash db h of
               None \<Rightarrow> False
             | Some c \<Rightarrow>
                 content_owner_id c = None \<and>
                 (\<forall>r' \<in> set db. hash_value r' = Some h \<longrightarrow>
                    r' = c \<or> (content_owner_id r' = Some (file_id c) \<and> file_id r' \<noteq> file_id c))))"

text \<open>A table as the Scanner leaves it: no hash and no owner anywhere.\<close>

definition unhashed :: "catalog \<Rightarrow> bool" where
  "unhashed db \<longleftrightarrow> (\<forall>r \<in> set db. hash_value r = None \<and> content_owner_id r = None)"

section \<open>Concrete catalogs and files\<close>

text \<open>A row as \<open>add_entry_to_database\<close> inserts it: pending, no hash, no owner.\<close>

definition scanned_row :: "int \<Rightarrow> string \<Rightarrow> string \<Rightarrow> int \<Rightarrow> kind \<Rightarrow> file_row" where
  "scanned_row i name path sz ftype =
     \<lparr>file_id = i, file_name = name, file_path = path, file_size = sz, file_type = ftype,
      file_status = Pending, parent_id = None, hash_value = None,
      is_symlink = (if ftype = KSymlink then 1 else 0), content_owner_id = None\<rparr>"

text \<open>Two files of 2 MiB that cannot be read.\<close>

definition two_large_files :: catalog where
  "two_large_files =
     [scanned_row 1 ''a.bin'' ''/mnt/a.bin'' 2097152 KFile,
      scanned_row 2 ''b.bin'' ''/mnt/b.bin'' 2097152 KFile]"

definition unreadable :: filesystem where
  "unreadable path = None"

text \<open>A filesystem on which every file holds the same three bytes.\<close>

definition same_content :: filesystem where
  "same_content path = Some [1, 2, 3]"

text \<open>
  Three files of three bytes with the same content, and the same files after the
  first one has been edited in place.
\<close>

definition three_small_files :: catalog where
  "three_small_files =
     [scanned_row 1 ''a.txt'' ''/mnt/a.txt'' 3 KFile,
      scanned_row 2 ''b.txt'' ''/mnt/b.txt'' 3 KFile,
      scanned_row 3 ''c.txt'' ''/mnt/c.txt'' 3 KFile]"

definition a_edited :: filesystem where
  "a_edited path = (if path = ''/mnt/a.txt'' then Some [9, 9, 9] else Some [1, 2, 3])"

text \<open>A small file, a folder and a larger file, for a threshold of 10 bytes.\<close>

definition mixed_catalog :: catalog where
  "mixed_catalog =
     [scanned_row 1 ''small'' ''/mnt/small'' 5 KFile,
      scanned_row 2 ''dir'' ''/mnt/dir'' 4096 KFolder,
      scanned_row 3 ''big'' ''/mnt/big'' 20 KFile]"

text \<open>
  A file of exactly 1 MiB whose first, middle and last 100 KiB hold the bytes 1, 2
  and 3, and a file one byte shorter.
\<close>

definition one_mib_file :: bytes where
  "one_mib_file = replicate 102400 1 @ replicate 843776 2 @ replicate 102400 3"

definition below_one_mib_file :: bytes where
  "below_one_mib_file = replicate 102400 1 @ replicate 843775 2 @ replicate 102400 3"

text \<open>Filesystems on which every path holds the one or the other.\<close>

definition holds_one_mib :: filesystem where
  "holds_one_mib path = Some one_mib_file"

definition holds_below_one_mib :: filesystem where
  "holds_below_one_mib path = Some below_one_mib_file"

text \<open>The log and the table that a pass leaves behind, however it ended.\<close>

definition log_after :: "exn \<times> world + world \<Rightarrow> fs_log" where
  "log_after r = (case r of Inl (e, w) \<Rightarrow> log_of w | Inr w \<Rightarrow> log_of w)"

definition catalog_after :: "exn \<times> world + world \<Rightarrow> catalog" where
  "catalog_after r = (case r of Inl (e, w) \<Rightarrow> catalog_of w | Inr w \<Rightarrow> catalog_of w)"

text \<open>
  The target of the symbolic link that the logged calls created at a path, if any:
  the last successful \<open>Symlink\<close> with that link path.
\<close>

definition link_created :: "fs_log \<Rightarrow> string \<Rightarrow> string option" where
  "link_created lg link_path =
     (case filter (\<lambda>(op, raised). raised = None \<and> (\<exists>t. op = Symlink t link_path)) lg of
        [] \<Rightarrow> None
      | calls \<Rightarrow> (case fst (last calls) of Symlink t l \<Rightarrow> Some t | _ \<Rightarrow> None))"

text \<open>
  A machine on which every call succeeds and every write to the database is
  committed, with the functions of \<^verbatim>\<open>os.path\<close> as they act on absolute POSIX paths
  below the start directory, 10 MB free everywhere, and a dangling link
  \<^verbatim>\<open>/mnt/link\<close> in the source tree.
\<close>

definition posix_join :: "string \<Rightarrow> string \<Rightarrow> string" where
  "posix_join a b = a @ ''/'' @ b"

definition posix_relpath :: "string \<Rightarrow> string option \<Rightarrow> exn + string" where
  "posix_relpath path start =
     (if path = [] then Inl ValueError
      else case start of None \<Rightarrow> Inr path | Some s \<Rightarrow> Inr (drop (length s + 1) path))"

definition posix_dirname :: "string \<Rightarrow> string" where
  "posix_dirname path = rev (tl (dropWhile (\<lambda>c. c \<noteq> CHR ''/'') (rev path)))"

definition always_commits :: sqlite where
  "always_commits n = True"

definition demo_env :: os_env where
  "demo_env =
     \<lparr>path_join = posix_join, relpath = posix_relpath, dirname = posix_dirname,
      fs_outcome = (\<lambda>lg op. None), disk_usage = (\<lambda>p. Inr 10000000),
      readlink = (\<lambda>p. if p = ''/mnt/link'' then Some ''/mnt/gone.txt'' else None),
      db_commits = always_commits\<rparr>"

text \<open>The same machine with a database file that cannot be written.\<close>

definition never_commits :: sqlite where
  "never_commits n = False"

definition readonly_db_env :: os_env where
  "readonly_db_env = demo_env\<lparr>db_commits := never_commits\<rparr>"

text \<open>A database that loses the third write of a pass and commits all others.\<close>

definition loses_third_write :: sqlite where
  "loses_third_write n = (n \<noteq> 2)"

text \<open>The same machine with a disk on which \<^verbatim>\<open>shutil.copy2\<close> fails.\<close>

definition copy_fails_env :: os_env where
  "copy_fails_env =
     demo_env\<lparr>fs_outcome := (\<lambda>lg op. case op of Copy2 src dst \<Rightarrow> Some OSError | _ \<Rightarrow> None)\<rparr>"

text \<open>The same machine with a filesystem that refuses symbolic links.\<close>

definition no_links_env :: os_env where
  "no_links_env =
     demo_env\<lparr>fs_outcome := (\<lambda>lg op. case op of Symlink t l \<Rightarrow> Some OSError | _ \<Rightarrow> None)\<rparr>"

text \<open>The same machine with a destination whose disk usage cannot be queried.\<close>

definition unqueryable_env :: os_env where
  "unqueryable_env = demo_env\<lparr>disk_usage := (\<lambda>p. Inl OSError)\<rparr>"

definition demo_cfg :: config where
  "demo_cfg = \<lparr>MOUNTED_PATH = Some ''/mnt'', BACKUP_DESTINATION = Some ''/dst''\<rparr>"

text \<open>
  Two files of 2 MiB with the same content in different folders after duplicate
  detection: the second is owned by the first.
\<close>

definition original_row :: file_row where
  "original_row = (scanned_row 1 ''x.bin'' ''/mnt/a/x.bin'' 2097152 KFile)
     \<lparr>hash_value := Some ''5e7f''\<rparr>"

definition duplicate_row :: file_row where
  "duplicate_row = (scanned_row 2 ''y.bin'' ''/mnt/b/y.bin'' 2097152 KFile)
     \<lparr>hash_value := Some ''5e7f'', content_owner_id := Some 1\<rparr>"

definition link_row :: file_row where
  "link_row = scanned_row 3 ''link'' ''/mnt/link'' 0 KSymlink"

definition folder_row :: file_row where
  "folder_row = scanned_row 4 ''a'' ''/mnt/a'' 4096 KFolder"

definition demo_catalog :: catalog where
  "demo_catalog = [original_row, duplicate_row, link_row, folder_row]"

definition demo_world :: world where
  "demo_world = \<lparr>catalog_of = demo_catalog, log_of = []\<rparr>"

text \<open>Three files of 50 MB in total.\<close>

definition fifty_mb_selection :: "file_row list" where
  "fifty_mb_selection =
     [scanned_row 5 ''m1'' ''/mnt/m1'' 20000000 KFile,
      scanned_row 6 ''m2'' ''/mnt/m2'' 20000000 KFile,
      scanned_row 7 ''m3'' ''/mnt/m3'' 10000000 KFile]"

text \<open>A directory entry of a folder as \<^verbatim>\<open>os.scandir\<close> yields it on Linux.\<close>

definition photos_entry :: dir_entry where
  "photos_entry = \<lparr>entry_name = ''photos'', entry_path = ''/mnt/photos'', entry_stat = Inr 4096\<rparr>"

definition link_entry :: dir_entry where
  "link_entry = \<lparr>entry_name = ''link'', entry_path = ''/mnt/link'', entry_stat = Inl OSError\<rparr>"

text \<open>
  A source folder with one file, one subfolder holding one file, and one dangling
  link, and the table that scanning it into an empty catalog gives.
\<close>

definition demo_tree :: "fs_node list option" where
  "demo_tree = Some
     [FsNode \<lparr>entry_name = ''f.txt'', entry_path = ''/mnt/f.txt'', entry_stat = Inr 12\<rparr>
        False True False None,
      FsNode photos_entry True False False
        (Some [FsNode \<lparr>entry_name = ''p.jpg'', entry_path = ''/mnt/photos/p.jpg'',
                       entry_stat = Inr 2048\<rparr> False True False None]),
      FsNode link_entry False False True None]"

definition demo_tree_rows :: catalog where
  "demo_tree_rows =
     [scanned_row 1 ''f.txt'' ''/mnt/f.txt'' 12 KFile,
      scanned_row 2 ''photos'' ''/mnt/photos'' 4096 KFolder,
      (scanned_row 3 ''p.jpg'' ''/mnt/photos/p.jpg'' 2048 KFile)\<lparr>parent_id := Some 2\<rparr>,
      scanned_row 4 ''link'' ''/mnt/link'' 0 KSymlink]"


section \<open>The hash calculator: strategy and windows\<close>

lemma read_chunks_all: "read_chunks hasher rest = hasher @ rest"
proof (induction hasher rest rule: read_chunks.induct)
  case (1 hasher rest)
  show ?case
  proof (cases "take 4096 rest = []")
    case True
    then have "rest = []" by (cases rest) simp_all
    then show ?thesis by (subst read_chunks.simps) simp
  next
    case False
    with "1" have "read_chunks (hasher @ take 4096 rest) (drop 4096 rest)
        = (hasher @ take 4096 rest) @ drop 4096 rest"
      by simp
    with False show ?thesis by (subst read_chunks.simps) simp
  qed
qed

lemma calculate_hash_char:
  "calculate_hash sha fs path sz =
     (case fs path of
        None \<Rightarrow> None
      | Some content \<Rightarrow>
          Some (sha (if sz < 1048576 then content
                     else take 102400 content
                        @ take 102400 (drop (nat (max 0 (int (length content) div 2 - 51200))) content)
                        @ take 102400 (drop (nat (max 0 (int (length content) - 102400))) content))))"
  by (simp add: calculate_hash_def calculate_full_hash_def calculate_partial_hash_def
      read_at_def read_chunks_all Let_def split: option.splits)

section \<open>The duplicate detector: a closed form of the loop\<close>

lemma loop_step:
  "find_duplicates_loop thr calc c (f # fs) H n D =
     find_duplicates_loop thr calc c fs (hashes_step thr calc f H)
       (n + writes_step thr calc H f) (map (row_step thr calc c n H f) D)"
proof -
  have "map (row_step thr calc c n H f) D = D" if "\<not> above_threshold thr f"
    using that by (intro map_idI) (simp add: row_step_def)
  moreover have "map (row_step thr calc c n H f) D =
      update_file_content_owner c (n + 1)
        (update_file_hash c n D (file_id f) (calc (file_path f) (file_size f)))
        (file_id f) (Some ow)"
    if "above_threshold thr f" "H (calc (file_path f) (file_size f)) = Some ow" for ow
    using that
    by (auto simp: row_step_def update_file_hash_def update_file_content_owner_def Let_def
        intro!: map_idI)
  moreover have "map (row_step thr calc c n H f) D =
      update_file_hash c n D (file_id f) (calc (file_path f) (file_size f))"
    if "above_threshold thr f" "H (calc (file_path f) (file_size f)) = None"
    using that by (auto simp: row_step_def update_file_hash_def Let_def intro!: map_idI)
  ultimately show ?thesis
    by (auto simp: hashes_step_def writes_step_def Let_def split: option.splits)
qed

lemma row_step_id [simp]: "file_id (row_step thr calc c n H f r) = file_id r"
  by (simp add: row_step_def Let_def split: option.splits)

lemma row_step_other: "file_id r \<noteq> file_id f \<Longrightarrow> row_step thr calc c n H f r = r"
  by (simp add: row_step_def)

lemma row_step_skipped: "\<not> above_threshold thr f \<Longrightarrow> row_step thr calc c n H f r = r"
  by (simp add: row_step_def)

lemma loop_length [simp]: "length (find_duplicates_loop thr calc c fs H n D) = length D"
  by (induction fs arbitrary: H n D)
    (simp_all only: find_duplicates_loop.simps(1) loop_step length_map)

lemma loop_untouched:
  "j < length D \<Longrightarrow> \<forall>f \<in> set fs. above_threshold thr f \<longrightarrow> file_id f \<noteq> file_id (D ! j) \<Longrightarrow>
   find_duplicates_loop thr calc c fs H n D ! j = D ! j"
proof (induction fs arbitrary: H n D)
  case Nil
  then show ?case by simp
next
  case (Cons f fs)
  have "row_step thr calc c n H f (D ! j) = D ! j"
    using Cons.prems by (auto simp: row_step_def)
  with Cons show ?case
    by (simp only: loop_step) (simp del: find_duplicates_loop.simps)
qed

lemma loop_nth:
  "distinct (map file_id fs) \<Longrightarrow> j < length D \<Longrightarrow> k < length fs \<Longrightarrow>
   file_id (D ! j) = file_id (fs ! k) \<Longrightarrow>
   \<exists>n'. find_duplicates_loop thr calc c fs H n D ! j =
     row_step thr calc c n' (fold (hashes_step thr calc) (take k fs) H) (fs ! k) (D ! j)"
proof (induction fs arbitrary: H n D k)
  case Nil
  then show ?case by simp
next
  case (Cons f fs)
  show ?case
  proof (cases k)
    case 0
    have "\<forall>g \<in> set fs. above_threshold thr g \<longrightarrow>
        file_id g \<noteq> file_id (map (row_step thr calc c n H f) D ! j)"
      using Cons.prems 0 by (auto simp: image_iff)
    with Cons.prems 0 have "find_duplicates_loop thr calc c (f # fs) H n D ! j =
        row_step thr calc c n (fold (hashes_step thr calc) (take k (f # fs)) H) ((f # fs) ! k) (D ! j)"
      by (simp only: loop_step) (simp add: loop_untouched del: find_duplicates_loop.simps)
    then show ?thesis by blast
  next
    case (Suc k')
    have "fs ! k' \<in> set fs"
      using Cons.prems Suc by simp
    then have "file_id (fs ! k') \<in> file_id ` set fs"
      by (rule imageI)
    moreover have "file_id f \<notin> file_id ` set fs"
      using Cons.prems(1) by simp
    moreover have "file_id (D ! j) = file_id (fs ! k')"
      using Cons.prems(4) Suc by simp
    ultimately have ne: "file_id (D ! j) \<noteq> file_id f"
      by metis
    have "\<exists>n'. find_duplicates_loop thr calc c fs (hashes_step thr calc f H)
          (n + writes_step thr calc H f) (map (row_step thr calc c n H f) D) ! j
        = row_step thr calc c n' (fold (hashes_step thr calc) (take k' fs) (hashes_step thr calc f H))
            (fs ! k') (map (row_step thr calc c n H f) D ! j)"
      using Cons.prems Suc by (intro Cons.IH) simp_all
    then obtain n' where "find_duplicates_loop thr calc c fs (hashes_step thr calc f H)
          (n + writes_step thr calc H f) (map (row_step thr calc c n H f) D) ! j
        = row_step thr calc c n' (fold (hashes_step thr calc) (take k' fs) (hashes_step thr calc f H))
            (fs ! k') (map (row_step thr calc c n H f) D ! j)"
      by blast
    with Cons.prems Suc ne have "find_duplicates_loop thr calc c (f # fs) H n D ! j =
        row_step thr calc c n' (fold (hashes_step thr calc) (take k (f # fs)) H) ((f # fs) ! k) (D ! j)"
      by (simp only: loop_step) (simp add: row_step_other del: find_duplicates_loop.simps)
    then show ?thesis by blast
  qed
qed

lemma fold_hashes_step:
  "fold (hashes_step thr calc) fs H hv =
     (case H hv of
        Some ow \<Rightarrow> Some ow
      | None \<Rightarrow> map_option file_id
          (List.find (\<lambda>g. above_threshold thr g \<and> calc (file_path g) (file_size g) = hv) fs))"
proof (induction fs arbitrary: H)
  case Nil
  then show ?case by (simp split: option.splits)
next
  case (Cons f fs)
  show ?case
    by (simp add: Cons.IH) (auto simp: hashes_step_def split: option.splits)
qed

lemma find_duplicates_nth:
  assumes "distinct (map file_id db)" and "j < length db"
  shows "\<exists>n'. find_duplicates thr calc c db ! j =
     row_step thr calc c n'
       (\<lambda>hv. map_option file_id
          (List.find (\<lambda>g. above_threshold thr g \<and> calc (file_path g) (file_size g) = hv)
             (take j db)))
       (db ! j) (db ! j)"
proof -
  have "fold (hashes_step thr calc) (take j db) Map.empty =
      (\<lambda>hv. map_option file_id
          (List.find (\<lambda>g. above_threshold thr g \<and> calc (file_path g) (file_size g) = hv)
             (take j db)))"
    by (rule ext) (simp add: fold_hashes_step)
  with loop_nth [OF assms(1) assms(2) assms(2) refl, of thr calc c Map.empty 0]
  show ?thesis by (simp add: find_duplicates_def get_all_files_def)
qed

lemma find_duplicates_length [simp]: "length (find_duplicates thr calc c db) = length db"
  by (simp add: find_duplicates_def)

lemma find_duplicates_id:
  assumes "distinct (map file_id db)" and "j < length db"
  shows "file_id (find_duplicates thr calc c db ! j) = file_id (db ! j)"
  using find_duplicates_nth [OF assms, of thr calc c] by auto

lemma find_duplicates_hash_written_or_kept:
  assumes "distinct (map file_id db)" and "j < length db"
  shows "hash_value (find_duplicates thr calc c db ! j) = calc (file_path (db ! j)) (file_size (db ! j))
     \<or> hash_value (find_duplicates thr calc c db ! j) = hash_value (db ! j)"
  using find_duplicates_nth [OF assms, of thr calc c]
  by (auto simp: row_step_def Let_def split: option.splits if_splits)

lemma find_duplicates_hash:
  assumes "distinct (map file_id db)" and "j < length db" and "\<forall>n. c n"
  shows "hash_value (find_duplicates thr calc c db ! j) =
     (if above_threshold thr (db ! j) then calc (file_path (db ! j)) (file_size (db ! j))
      else hash_value (db ! j))"
  using find_duplicates_nth [OF assms(1,2), of thr calc c] assms(3)
  by (auto simp: row_step_def Let_def split: option.splits)

lemma find_duplicates_owner:
  assumes "distinct (map file_id db)" and "j < length db" and "\<forall>n. c n"
  shows "content_owner_id (find_duplicates thr calc c db ! j) =
     (if above_threshold thr (db ! j) then
        (case List.find (\<lambda>g. above_threshold thr g \<and>
                 calc (file_path g) (file_size g) = calc (file_path (db ! j)) (file_size (db ! j)))
                (take j db) of
           Some g \<Rightarrow> Some (file_id g)
         | None \<Rightarrow> content_owner_id (db ! j))
      else content_owner_id (db ! j))"
  using find_duplicates_nth [OF assms(1,2), of thr calc c] assms(3)
  by (auto simp: row_step_def Let_def split: option.splits)

lemma find_duplicates_skipped:
  assumes "distinct (map file_id db)" and "j < length db" and "\<not> above_threshold thr (db ! j)"
  shows "find_duplicates thr calc c db ! j = db ! j"
  using find_duplicates_nth [OF assms(1,2), of thr calc c] assms(3)
  by (auto simp: row_step_def)

lemma loop_calc_cong:
  "\<forall>f \<in> set fs. above_threshold thr f \<longrightarrow>
      calc' (file_path f) (file_size f) = calc (file_path f) (file_size f) \<Longrightarrow>
   find_duplicates_loop thr calc' c fs H n D = find_duplicates_loop thr calc c fs H n D"
  by (induction fs arbitrary: H n D) (auto simp: Let_def split: option.splits)

lemma ownership_after_first_run_aux:
  assumes dist: "distinct (map file_id db)" and fresh: "unhashed db"
    and all: "\<forall>n. commits n"
  shows "ownership_invariant (find_duplicates thr calc commits db)"
proof -
  define db' where "db' = find_duplicates thr calc commits db"
  define P where "P = (\<lambda>h g. above_threshold thr g \<and> calc (file_path g) (file_size g) = Some h)"
  have len: "length db' = length db" by (simp add: db'_def)
  have hash: "hash_value (db' ! j) = Some h \<longleftrightarrow> P h (db ! j)" if "j < length db" for j h
    using that dist fresh all unfolding db'_def P_def unhashed_def
    by (auto simp: find_duplicates_hash)
  have own: "content_owner_id (db' ! j) = map_option file_id (List.find (P h) (take j db))"
    if "j < length db" "P h (db ! j)" for j h
  proof -
    have "content_owner_id (db ! j) = None"
      using that(1) fresh by (simp add: unhashed_def)
    with that dist all show ?thesis
      unfolding db'_def P_def by (simp add: find_duplicates_owner split: option.splits)
  qed
  have ids: "file_id (db' ! j) = file_id (db ! j)" if "j < length db" for j
    using that dist unfolding db'_def by (rule find_duplicates_id [rotated])
  have "case hash_value r of
          None \<Rightarrow> True
        | Some h \<Rightarrow>
            (case first_with_hash db' h of
               None \<Rightarrow> False
             | Some c \<Rightarrow>
                 content_owner_id c = None \<and>
                 (\<forall>r' \<in> set db'. hash_value r' = Some h \<longrightarrow>
                    r' = c \<or> (content_owner_id r' = Some (file_id c) \<and> file_id r' \<noteq> file_id c)))"
    if r: "r \<in> set db'" for r
  proof (cases "hash_value r")
    case None
    then show ?thesis by simp
  next
    case (Some h)
    from r Some have "first_with_hash db' h \<noteq> None"
      by (auto simp: first_with_hash_def find_None_iff)
    then obtain c where c: "first_with_hash db' h = Some c" by auto
    then obtain i where i: "i < length db'" "hash_value (db' ! i) = Some h" "c = db' ! i"
        "\<forall>k<i. hash_value (db' ! k) \<noteq> Some h"
      unfolding first_with_hash_def find_Some_iff by blast
    from i len have Pi: "P h (db ! i)" by (simp add: hash)
    from i len have least: "\<not> P h (db ! k)" if "k < i" for k
      using that hash [of k h] by simp
    have "List.find (P h) (take i db) = None"
      unfolding find_None_iff using least i(1) len
      by (auto simp: in_set_conv_nth)
    with own [of i h] Pi i len have c_none: "content_owner_id c = None" by simp
    have others: "r' = c \<or> (content_owner_id r' = Some (file_id c) \<and> file_id r' \<noteq> file_id c)"
      if "r' \<in> set db'" "hash_value r' = Some h" for r'
    proof -
      from that obtain k where k: "k < length db'" "r' = db' ! k"
        by (auto simp: in_set_conv_nth)
      with that len have Pk: "P h (db ! k)" by (simp add: hash)
      with least have "i \<le> k" by (meson not_le_imp_less)
      show ?thesis
      proof (cases "k = i")
        case True
        with k i show ?thesis by simp
      next
        case False
        with \<open>i \<le> k\<close> have "i < k" by simp
        have "List.find (P h) (take k db) = Some (db ! i)"
          unfolding find_Some_iff
          using \<open>i < k\<close> k(1) len Pi least by (intro exI [of _ i]) auto
        with own [of k h] Pk k len have "content_owner_id r' = Some (file_id (db ! i))"
          by simp
        moreover have "file_id (db ! k) \<noteq> file_id (db ! i)"
        proof -
          have "(map file_id db ! k = map file_id db ! i) = (k = i)"
            using dist \<open>i < k\<close> k(1) len by (intro nth_eq_iff_index_eq) simp_all
          with \<open>i < k\<close> k(1) len show ?thesis by simp
        qed
        ultimately show ?thesis
          using ids [of i] ids [of k] i k len by simp
      qed
    qed
    from Some c c_none others show ?thesis by simp
  qed
  then show ?thesis
    unfolding ownership_invariant_def db'_def by blast
qed

section \<open>The backup manager: what a pass does to the table\<close>

lemma update_file_status_length [simp]:
  "length (update_file_status c n db i st) = length db"
  by (simp add: update_file_status_def)


lemma backup_file_char:
  "backup_file frames env cfg file bd n w =
     (case dest_path_of env cfg bd (file_path file) of
        Inl e \<Rightarrow> Inl (e, w)
      | Inr dest_path \<Rightarrow>
          Inr \<lparr>catalog_of = update_file_status (db_commits env) (Suc n)
                  (update_file_status (db_commits env) n (catalog_of w) (file_id file) Copying)
                  (file_id file)
                  (outcome_status (fst (materialize frames env cfg
                     (update_file_status (db_commits env) n (catalog_of w) (file_id file) Copying)
                     file dest_path bd (log_of w)))),
               log_of = snd (materialize frames env cfg
                     (update_file_status (db_commits env) n (catalog_of w) (file_id file) Copying)
                     file dest_path bd (log_of w))\<rparr>)"
  by (simp add: backup_file_def Let_def outcome_status_def
      split: sum.splits prod.splits option.splits)







lemma backup_files_loop_returns:
  "\<forall>f \<in> set files. \<exists>d. dest_path_of env cfg bd (file_path f) = Inr d \<Longrightarrow>
   \<exists>w'. backup_files_loop frames env cfg bd n files w = Inr w'"
proof (induction files arbitrary: n w)
  case Nil
  then show ?case by simp
next
  case (Cons f fs)
  then obtain d where "dest_path_of env cfg bd (file_path f) = Inr d" by auto
  then obtain w1 where "backup_file frames env cfg f bd n w = Inr w1"
    by (simp add: backup_file_char)
  with Cons show ?case by simp
qed

section \<open>Evaluating the backup manager on the concrete machines\<close>

lemmas demo_paths = posix_join_def posix_relpath_def posix_dirname_def dest_path_of_def

lemma demo_env_sel [simp]:
  "path_join demo_env = posix_join" "relpath demo_env = posix_relpath"
  "dirname demo_env = posix_dirname" "fs_outcome demo_env = (\<lambda>lg op. None)"
  "disk_usage demo_env = (\<lambda>p. Inr 10000000)"
  "readlink demo_env = (\<lambda>p. if p = ''/mnt/link'' then Some ''/mnt/gone.txt'' else None)"
  "db_commits demo_env = always_commits"
  by (simp_all add: demo_env_def)

lemma copy_fails_env_sel [simp]:
  "path_join copy_fails_env = posix_join" "relpath copy_fails_env = posix_relpath"
  "dirname copy_fails_env = posix_dirname"
  "fs_outcome copy_fails_env = (\<lambda>lg op. case op of Copy2 src dst \<Rightarrow> Some OSError | _ \<Rightarrow> None)"
  "db_commits copy_fails_env = always_commits"
  by (simp_all add: copy_fails_env_def)

lemma no_links_env_sel [simp]:
  "path_join no_links_env = posix_join" "relpath no_links_env = posix_relpath"
  "dirname no_links_env = posix_dirname"
  "fs_outcome no_links_env = (\<lambda>lg op. case op of Symlink t l \<Rightarrow> Some OSError | _ \<Rightarrow> None)"
  "db_commits no_links_env = always_commits"
  by (simp_all add: no_links_env_def)

lemma unqueryable_env_sel [simp]:
  "path_join unqueryable_env = posix_join" "relpath unqueryable_env = posix_relpath"
  "dirname unqueryable_env = posix_dirname" "fs_outcome unqueryable_env = (\<lambda>lg op. None)"
  "disk_usage unqueryable_env = (\<lambda>p. Inl OSError)"
  "db_commits unqueryable_env = always_commits"
  by (simp_all add: unqueryable_env_def)

lemma readonly_db_env_sel [simp]:
  "path_join readonly_db_env = posix_join" "relpath readonly_db_env = posix_relpath"
  "dirname readonly_db_env = posix_dirname" "fs_outcome readonly_db_env = (\<lambda>lg op. None)"
  "db_commits readonly_db_env = never_commits"
  by (simp_all add: readonly_db_env_def)

lemmas demo_rows = demo_world_def demo_catalog_def original_row_def duplicate_row_def
  link_row_def folder_row_def scanned_row_def

lemmas backup_eval = backup_file_def materialize_def copy_folder_def update_file_status_def
  always_commits_def never_commits_def
  numeral_eq_Suc truthy_def get_file_by_path_def os_call_def demo_paths demo_cfg_def Let_def

section \<open>Claims about the hash calculator and the duplicate detector\<close>

text \<open>
  C6. The strategy is chosen by the size passed in, with the boundary at 1 MiB: below
  it the digest is taken over the whole content as it is streamed in chunks; from
  1 MiB on it is taken over three windows of 100 KiB, in the order start, middle,
  end, where the middle window starts 50 KiB before half the file's length and the
  last one 100 KiB before its end, both offsets clamped at 0.
\<close>

theorem C6_hash_strategy_by_size:
  assumes "fs path = Some content"
  shows "calculate_hash sha fs path sz =
     Some (sha (if sz < 1024 * 1024 then content
                else take (100 * 1024) content
                   @ take (100 * 1024)
                       (drop (nat (max 0 (int (length content) div 2 - 50 * 1024))) content)
                   @ take (100 * 1024)
                       (drop (nat (max 0 (int (length content) - 100 * 1024))) content)))"
  using assms by (simp add: calculate_hash_char)

theorem C6_witness:
  "calculate_hash demo_sha holds_below_one_mib ''/mnt/f'' 1048575
     = Some (demo_sha below_one_mib_file) \<and>
   calculate_hash demo_sha holds_one_mib ''/mnt/f'' 1048576
     = Some (demo_sha (replicate 102400 1 @ replicate 102400 2 @ replicate 102400 3))"
  using C6_hash_strategy_by_size [of holds_below_one_mib "''/mnt/f''"
      below_one_mib_file demo_sha 1048575]
    C6_hash_strategy_by_size [of holds_one_mib "''/mnt/f''" one_mib_file demo_sha 1048576]
  by (simp add: one_mib_file_def holds_one_mib_def holds_below_one_mib_def)

text \<open>
  C7. Only rows of kind file whose size is strictly greater than the threshold are
  hashed and linked: every other row is the same after the pass as before it (so a
  hash and an owner that were unset remain unset), and the result does not depend
  on what the calculator would return for any other row. A row above the threshold
  carries the hash the calculator returns for it, or, if the database did not
  commit the write, the hash it had; it carries the calculator's if every write is
  committed.
\<close>

theorem C7_only_files_above_threshold:
  assumes "distinct (map file_id db)"
  shows "length (find_duplicates size_threshold calc commits db) = length db \<and>
    (\<forall>j < length db.
       (file_type (db ! j) \<noteq> KFile \<or> file_size (db ! j) \<le> size_threshold \<longrightarrow>
          find_duplicates size_threshold calc commits db ! j = db ! j) \<and>
       (file_type (db ! j) = KFile \<and> file_size (db ! j) > size_threshold \<longrightarrow>
          (hash_value (find_duplicates size_threshold calc commits db ! j)
             = calc (file_path (db ! j)) (file_size (db ! j)) \<or>
           hash_value (find_duplicates size_threshold calc commits db ! j)
             = hash_value (db ! j)) \<and>
          ((\<forall>n. commits n) \<longrightarrow>
             hash_value (find_duplicates size_threshold calc commits db ! j)
               = calc (file_path (db ! j)) (file_size (db ! j))))) \<and>
    ((\<forall>r \<in> set db. file_type r = KFile \<and> file_size r > size_threshold \<longrightarrow>
         calc' (file_path r) (file_size r) = calc (file_path r) (file_size r)) \<longrightarrow>
       find_duplicates size_threshold calc' commits db
         = find_duplicates size_threshold calc commits db)"
proof -
  have "find_duplicates size_threshold calc commits db ! j = db ! j"
    if "j < length db" "file_type (db ! j) \<noteq> KFile \<or> file_size (db ! j) \<le> size_threshold" for j
    using assms that by (intro find_duplicates_skipped) (auto simp: above_threshold_def)
  moreover have "hash_value (find_duplicates size_threshold calc commits db ! j)
      = calc (file_path (db ! j)) (file_size (db ! j)) \<or>
     hash_value (find_duplicates size_threshold calc commits db ! j) = hash_value (db ! j)"
    if "j < length db" for j
    using assms that by (rule find_duplicates_hash_written_or_kept)
  moreover have "hash_value (find_duplicates size_threshold calc commits db ! j)
      = calc (file_path (db ! j)) (file_size (db ! j))"
    if "j < length db" "file_type (db ! j) = KFile" "file_size (db ! j) > size_threshold"
      "\<forall>n. commits n" for j
    using assms that by (simp add: find_duplicates_hash above_threshold_def)
  moreover have "find_duplicates size_threshold calc' commits db
      = find_duplicates size_threshold calc commits db"
    if "\<forall>r \<in> set db. file_type r = KFile \<and> file_size r > size_threshold \<longrightarrow>
         calc' (file_path r) (file_size r) = calc (file_path r) (file_size r)"
    unfolding find_duplicates_def get_all_files_def
    using that by (intro loop_calc_cong) (simp add: above_threshold_def)
  ultimately show ?thesis by simp
qed

theorem C7_witness:
  "distinct (map file_id mixed_catalog) \<and>
   find_duplicates 10 (calculate_hash demo_sha same_content) always_commits mixed_catalog ! 0
     = mixed_catalog ! 0 \<and>
   find_duplicates 10 (calculate_hash demo_sha same_content) always_commits mixed_catalog ! 1
     = mixed_catalog ! 1 \<and>
   hash_value (find_duplicates 10 (calculate_hash demo_sha same_content) always_commits
       mixed_catalog ! 2)
     = Some (demo_sha [1, 2, 3])"
proof -
  have d: "distinct (map file_id mixed_catalog)"
    by (simp add: mixed_catalog_def scanned_row_def)
  have l: "length mixed_catalog = 3"
    by (simp add: mixed_catalog_def)
  have r0: "file_size (mixed_catalog ! 0) \<le> 10"
    and r1: "file_type (mixed_catalog ! 1) \<noteq> KFile"
    and r2: "file_type (mixed_catalog ! 2) = KFile \<and> file_size (mixed_catalog ! 2) > 10"
    and p2: "file_path (mixed_catalog ! 2) = ''/mnt/big''" "file_size (mixed_catalog ! 2) = 20"
    by (simp_all add: mixed_catalog_def scanned_row_def)
  have c: "calculate_hash demo_sha same_content ''/mnt/big'' 20 = Some (demo_sha [1, 2, 3])"
    by (simp add: calculate_hash_char same_content_def)
  have a: "\<forall>n. always_commits n"
    by (simp add: always_commits_def)
  note T = C7_only_files_above_threshold [OF d, of 10 "calculate_hash demo_sha same_content"
      always_commits, THEN conjunct2, THEN conjunct1, rule_format]
  from T [of 0] l r0 have
    "find_duplicates 10 (calculate_hash demo_sha same_content) always_commits mixed_catalog ! 0
      = mixed_catalog ! 0"
    by simp
  moreover from T [of 1] l r1 have
    "find_duplicates 10 (calculate_hash demo_sha same_content) always_commits mixed_catalog ! 1
      = mixed_catalog ! 1"
    by simp
  moreover from T [of 2] l r2 a have
    "hash_value (find_duplicates 10 (calculate_hash demo_sha same_content) always_commits
        mixed_catalog ! 2)
      = calculate_hash demo_sha same_content (file_path (mixed_catalog ! 2))
          (file_size (mixed_catalog ! 2))"
    by simp
  ultimately show ?thesis
    using d c p2 by simp
qed

text \<open>
  C5, amended. On a table in which no row has a hash or an owner yet (the state the
  Scanner leaves) and whose ids are distinct, a pass of \<open>find_duplicates\<close> all of whose
  writes the database commits establishes the ownership invariant: for every hash
  carried by a row, the first row with that hash has no owner, and every other row
  with that hash is a different entry that names it directly as its owner.
\<close>

theorem C5_ownership_after_first_run:
  assumes "distinct (map file_id db)" and "unhashed db" and "\<forall>n. commits n"
  shows "ownership_invariant (find_duplicates size_threshold calc commits db)"
  using assms by (rule ownership_after_first_run_aux)

theorem C5_witness:
  "distinct (map file_id three_small_files) \<and> unhashed three_small_files \<and>
   always_commits 0 \<and>
   ownership_invariant
     (find_duplicates 0 (calculate_hash demo_sha same_content) always_commits three_small_files)"
  using C5_ownership_after_first_run [of three_small_files always_commits 0
      "calculate_hash demo_sha same_content"]
  by (simp add: three_small_files_def scanned_row_def unhashed_def always_commits_def)

text \<open>
  C5 as stated, for any run, fails on a second run. A first pass over three files
  with the same content links \<^verbatim>\<open>b.txt\<close> and \<^verbatim>\<open>c.txt\<close> to \<^verbatim>\<open>a.txt\<close>. After \<^verbatim>\<open>a.txt\<close>
  has been edited, a second pass gives \<^verbatim>\<open>a.txt\<close> its new hash, finds \<^verbatim>\<open>b.txt\<close> to be
  the first row with the old hash and leaves its owner in place, and links \<^verbatim>\<open>c.txt\<close>
  to \<^verbatim>\<open>b.txt\<close>: the first row with the old hash has an owner, and the owners form a
  chain from \<^verbatim>\<open>c.txt\<close> over \<^verbatim>\<open>b.txt\<close> to \<^verbatim>\<open>a.txt\<close>. It also fails on a first run in
  which the database loses the write of the owner of \<^verbatim>\<open>b.txt\<close>: \<^verbatim>\<open>b.txt\<close> then carries
  the hash of \<^verbatim>\<open>a.txt\<close> and no owner.
\<close>

lemmas find_duplicates_eval = find_duplicates_def get_all_files_def scanned_row_def
  above_threshold_def calculate_hash_char update_file_hash_def update_file_content_owner_def
  always_commits_def Let_def

lemma three_small_files_first_run:
  "find_duplicates 0 (calculate_hash demo_sha same_content) always_commits three_small_files =
   [(scanned_row 1 ''a.txt'' ''/mnt/a.txt'' 3 KFile)
       \<lparr>hash_value := Some (demo_sha [1, 2, 3])\<rparr>,
    (scanned_row 2 ''b.txt'' ''/mnt/b.txt'' 3 KFile)
       \<lparr>hash_value := Some (demo_sha [1, 2, 3]), content_owner_id := Some 1\<rparr>,
    (scanned_row 3 ''c.txt'' ''/mnt/c.txt'' 3 KFile)
       \<lparr>hash_value := Some (demo_sha [1, 2, 3]), content_owner_id := Some 1\<rparr>]"
  by (simp add: find_duplicates_eval three_small_files_def same_content_def)

lemma three_small_files_second_run:
  "find_duplicates 0 (calculate_hash demo_sha a_edited) always_commits
     (find_duplicates 0 (calculate_hash demo_sha same_content) always_commits three_small_files) =
   [(scanned_row 1 ''a.txt'' ''/mnt/a.txt'' 3 KFile)
       \<lparr>hash_value := Some (demo_sha [9, 9, 9])\<rparr>,
    (scanned_row 2 ''b.txt'' ''/mnt/b.txt'' 3 KFile)
       \<lparr>hash_value := Some (demo_sha [1, 2, 3]), content_owner_id := Some 1\<rparr>,
    (scanned_row 3 ''c.txt'' ''/mnt/c.txt'' 3 KFile)
       \<lparr>hash_value := Some (demo_sha [1, 2, 3]), content_owner_id := Some 2\<rparr>]"
  unfolding three_small_files_first_run
  by (simp add: find_duplicates_eval a_edited_def demo_sha_def)

lemma three_small_files_lost_write:
  "find_duplicates 0 (calculate_hash demo_sha same_content) loses_third_write three_small_files =
   [(scanned_row 1 ''a.txt'' ''/mnt/a.txt'' 3 KFile)
       \<lparr>hash_value := Some (demo_sha [1, 2, 3])\<rparr>,
    (scanned_row 2 ''b.txt'' ''/mnt/b.txt'' 3 KFile)
       \<lparr>hash_value := Some (demo_sha [1, 2, 3])\<rparr>,
    (scanned_row 3 ''c.txt'' ''/mnt/c.txt'' 3 KFile)
       \<lparr>hash_value := Some (demo_sha [1, 2, 3]), content_owner_id := Some 1\<rparr>]"
  by (simp add: find_duplicates_eval three_small_files_def same_content_def
      loses_third_write_def)

theorem C5_counterexample:
  "\<not> ownership_invariant
       (find_duplicates 0 (calculate_hash demo_sha a_edited) always_commits
          (find_duplicates 0 (calculate_hash demo_sha same_content) always_commits
             three_small_files)) \<and>
   map content_owner_id
       (find_duplicates 0 (calculate_hash demo_sha a_edited) always_commits
          (find_duplicates 0 (calculate_hash demo_sha same_content) always_commits
             three_small_files))
     = [None, Some 1, Some 2] \<and>
   \<not> ownership_invariant
       (find_duplicates 0 (calculate_hash demo_sha same_content) loses_third_write
          three_small_files)"
  unfolding three_small_files_second_run three_small_files_lost_write
  by (simp add: ownership_invariant_def first_with_hash_def scanned_row_def demo_sha_def)

text \<open>
  C2. The claim is that a file whose hash cannot be computed is never linked. In the
  code \<open>calculate_hash\<close> turns the read error into the result \<^verbatim>\<open>None\<close>, which
  \<open>find_duplicates\<close> stores in \<^verbatim>\<open>hashes\<close> like any hash: of two unreadable files above
  the threshold, the second is recorded as a duplicate of the first.
\<close>

theorem C2_failed_hash_is_linked:
  "find_duplicates 1048576 (calculate_hash demo_sha unreadable) always_commits two_large_files =
     [scanned_row 1 ''a.bin'' ''/mnt/a.bin'' 2097152 KFile,
      (scanned_row 2 ''b.bin'' ''/mnt/b.bin'' 2097152 KFile)\<lparr>content_owner_id := Some 1\<rparr>]"
  by (simp add: find_duplicates_eval two_large_files_def unreadable_def)

section \<open>Claims about the backup manager\<close>





text \<open>
  Whenever the row of a file with a content owner is found by its path and the calls
  succeed, the link that \<open>copy_file\<close> makes at the destination path points at that
  same path, whatever the owner is.
\<close>

lemma get_file_by_path_path:
  "get_file_by_path db p = Some r \<Longrightarrow> file_path r = p"
  by (auto simp: get_file_by_path_def find_Some_iff)

lemma copy_file_links_to_own_destination:
  assumes "truthy (content_owner_id file)"
    and "get_file_by_path db (file_path file) = Some r"
    and "dest_path_of env cfg bd (file_path file) = Inr dest"
    and "fs_outcome env lg (Makedirs (dirname env dest)) = None"
    and "fs_outcome env (lg @ [(Makedirs (dirname env dest), None)])
           (Makedirs (dirname env dest)) = None"
    and "fs_outcome env (lg @ [(Makedirs (dirname env dest), None),
           (Makedirs (dirname env dest), None)]) (Symlink dest dest) = None"
  shows "copy_file (Suc (Suc n)) env cfg db file (file_path file) dest bd lg =
     (None, lg @ [(Makedirs (dirname env dest), None), (Makedirs (dirname env dest), None),
                  (Symlink dest dest, None)])"
  using assms get_file_by_path_path [OF assms(2)]
  by (simp add: os_call_def)

text \<open>
  C1. The claim is that a file with a content owner is materialized as a link whose
  target is the destination path of its owner. \<open>copy_file\<close> looks the original up by
  the duplicate's own path, so the row it finds is the duplicate itself, and the
  link it creates at the destination path points at that same destination path: for
  the duplicate \<^verbatim>\<open>/mnt/b/y.bin\<close> of \<^verbatim>\<open>/mnt/a/x.bin\<close> the link \<^verbatim>\<open>/dst/b/y.bin\<close> has
  the target \<^verbatim>\<open>/dst/b/y.bin\<close>, not \<^verbatim>\<open>/dst/a/x.bin\<close>.
\<close>

theorem C1_duplicate_links_to_itself:
  "backup_file 1000 demo_env demo_cfg duplicate_row (Some ''/dst'') 0 demo_world =
     Inr \<lparr>catalog_of = [original_row, duplicate_row\<lparr>file_status := Success\<rparr>, link_row, folder_row],
          log_of = [(Makedirs ''/dst/b'', None), (Makedirs ''/dst/b'', None),
                    (Symlink ''/dst/b/y.bin'' ''/dst/b/y.bin'', None)]\<rparr>"
  by (simp add: demo_rows backup_eval)

text \<open>
  C3, amended. For an entry of kind symlink without a content owner, once the
  destination's parent directory is made, \<open>backup_file\<close> calls \<^verbatim>\<open>os.symlink\<close> with the
  entry's own source path as the target and the destination path as the link, and
  writes the status \<^verbatim>\<open>success\<close> if that call succeeds. If the call raises \<^verbatim>\<open>OSError\<close> it
  falls back to \<^verbatim>\<open>shutil.copy2\<close> from the entry's path to the destination path, and
  writes \<^verbatim>\<open>failed\<close> only if the fallback raises. Any other exception of the call fails
  the entry. The table afterwards is the one the two status writes leave.
\<close>

theorem C3_link_to_source_path:
  assumes "file_type file = KSymlink" and "content_owner_id file = None"
    and "dest_path_of env cfg bd (file_path file) = Inr dest"
    and "fs_outcome env (log_of w) (Makedirs (dirname env dest)) = None"
  shows
   "(let lg1 = log_of w @ [(Makedirs (dirname env dest), None)];
         link = Symlink (file_path file) dest;
         written = (\<lambda>st. update_file_status (db_commits env) (Suc k)
                      (update_file_status (db_commits env) k (catalog_of w) (file_id file) Copying)
                      (file_id file) st)
     in (fs_outcome env lg1 link = None \<longrightarrow>
           backup_file (Suc (Suc n)) env cfg file bd k w =
             Inr \<lparr>catalog_of = written Success, log_of = lg1 @ [(link, None)]\<rparr>) \<and>
        (fs_outcome env lg1 link = Some OSError \<longrightarrow>
           (let lg2 = lg1 @ [(link, Some OSError)];
                r3 = fs_outcome env lg2 (Makedirs (dirname env dest));
                lg3 = lg2 @ [(Makedirs (dirname env dest), r3)];
                r4 = fs_outcome env lg3 (Copy2 (file_path file) dest)
            in backup_file (Suc (Suc n)) env cfg file bd k w =
                 (if r3 = None
                  then Inr \<lparr>catalog_of = written (outcome_status r4),
                            log_of = lg3 @ [(Copy2 (file_path file) dest, r4)]\<rparr>
                  else Inr \<lparr>catalog_of = written Failed, log_of = lg3\<rparr>))) \<and>
        (\<forall>e. fs_outcome env lg1 link = Some e \<and> e \<noteq> OSError \<longrightarrow>
           backup_file (Suc (Suc n)) env cfg file bd k w =
             Inr \<lparr>catalog_of = written Failed, log_of = lg1 @ [(link, Some e)]\<rparr>) \<and>
        (db_commits env (Suc k) \<longrightarrow>
           (\<forall>st. written st = map (\<lambda>r. if file_id r = file_id file
                                         then r\<lparr>file_status := st\<rparr> else r) (catalog_of w))))"
  using assms
  by (auto simp: backup_file_char materialize_def os_call_def truthy_def outcome_status_def
      update_file_status_def Let_def split: option.splits)

theorem C3_witness:
  "backup_file 1000 demo_env demo_cfg link_row (Some ''/dst'') 0 demo_world =
     Inr \<lparr>catalog_of = [original_row, duplicate_row, link_row\<lparr>file_status := Success\<rparr>, folder_row],
          log_of = [(Makedirs ''/dst'', None), (Symlink ''/mnt/link'' ''/dst/link'', None)]\<rparr> \<and>
   backup_file 1000 no_links_env demo_cfg link_row (Some ''/dst'') 0 demo_world =
     Inr \<lparr>catalog_of = [original_row, duplicate_row, link_row\<lparr>file_status := Success\<rparr>, folder_row],
          log_of = [(Makedirs ''/dst'', None), (Symlink ''/mnt/link'' ''/dst/link'', Some OSError),
                    (Makedirs ''/dst'', None), (Copy2 ''/mnt/link'' ''/dst/link'', None)]\<rparr>"
  using
    C3_link_to_source_path [of link_row demo_env demo_cfg "Some ''/dst''" "''/dst/link''"
      demo_world 0 998]
    C3_link_to_source_path [of link_row no_links_env demo_cfg "Some ''/dst''" "''/dst/link''"
      demo_world 0 998]
  by (simp add: demo_rows demo_paths demo_cfg_def update_file_status_def outcome_status_def
      always_commits_def Let_def)

text \<open>
  C3 as stated fails: the link made for the source link \<^verbatim>\<open>/mnt/link\<close>, which points at
  \<^verbatim>\<open>/mnt/gone.txt\<close>, has the target \<^verbatim>\<open>/mnt/link\<close>.
\<close>

lemma link_row_run:
  "backup_file 1000 demo_env demo_cfg link_row (Some ''/dst'') 0 demo_world =
     Inr \<lparr>catalog_of = [original_row, duplicate_row, link_row\<lparr>file_status := Success\<rparr>, folder_row],
          log_of = [(Makedirs ''/dst'', None), (Symlink ''/mnt/link'' ''/dst/link'', None)]\<rparr>"
  by (simp add: demo_rows backup_eval)

theorem C3_counterexample:
  "link_created (log_after (backup_file 1000 demo_env demo_cfg link_row (Some ''/dst'') 0 demo_world))
      ''/dst/link'' = Some ''/mnt/link'' \<and>
   readlink demo_env ''/mnt/link'' = Some ''/mnt/gone.txt''"
  by (simp add: link_row_run log_after_def link_created_def)

section \<open>Claims about the caller's precondition\<close>

text \<open>
  C9. If the free space of the destination is less than the sum of the sizes of the
  selected entries, \<open>start_backup\<close> returns without calling \<open>backup_files\<close>: the table
  and the log of filesystem calls are the ones it was given.
\<close>

theorem C9_insufficient_space_rejected:
  assumes "get_free_space env (BACKUP_DESTINATION cfg) < sum_list (map file_size selected_files)"
  shows "start_backup frames env cfg selected_files w =
     (if selected_files = [] then NoFilesSelected w else InsufficientSpace w)"
  using assms by (simp add: start_backup_def Let_def)

theorem C9_witness:
  "get_free_space demo_env (BACKUP_DESTINATION demo_cfg) = 10000000 \<and>
   sum_list (map file_size fifty_mb_selection) = 50000000 \<and>
   start_backup 1000 demo_env demo_cfg fifty_mb_selection demo_world = InsufficientSpace demo_world"
  using C9_insufficient_space_rejected [of demo_env demo_cfg fifty_mb_selection 1000 demo_world]
  by (simp add: get_free_space_def demo_cfg_def fifty_mb_selection_def scanned_row_def)




section \<open>Claims about the scanner\<close>

lemma insert_file_new_row:
  assumes "row \<in> set (insert_file db name path sz ftype st parent hash_v is_sym owner)"
    and "row \<notin> set db"
  shows "row = \<lparr>file_id = next_id db, file_name = name, file_path = path,
                file_size = sz, file_type = ftype, file_status = st,
                parent_id = parent, hash_value = hash_v, is_symlink = is_sym,
                content_owner_id = owner\<rparr>"
  using assms by (auto simp: insert_file_def split: if_splits)

lemma add_entry_new_row:
  assumes "row \<in> set (snd (add_entry_to_database db entry ftype parent is_sym))"
    and "row \<notin> set db"
  shows "file_type row = ftype \<and> file_name row = entry_name entry \<and>
     file_path row = entry_path entry \<and> file_status row = Pending \<and>
     (ftype = KSymlink \<longrightarrow> file_size row = 0) \<and>
     (ftype \<noteq> KSymlink \<longrightarrow> entry_stat entry = Inr (file_size row))"
proof (cases "if ftype \<noteq> KSymlink then entry_stat entry else Inr 0")
  case (Inl e)
  with assms show ?thesis
    by (simp add: add_entry_to_database_def)
next
  case (Inr sz)
  then have "snd (add_entry_to_database db entry ftype parent is_sym) =
      insert_file db (entry_name entry) (entry_path entry) sz ftype Pending parent None is_sym None"
    by (auto simp: add_entry_to_database_def Let_def split: option.splits)
  with assms have "row = \<lparr>file_id = next_id db, file_name = entry_name entry,
      file_path = entry_path entry, file_size = sz, file_type = ftype, file_status = Pending,
      parent_id = parent, hash_value = None, is_symlink = is_sym, content_owner_id = None\<rparr>"
    by (intro insert_file_new_row) simp_all
  with Inr show ?thesis
    by (auto split: if_splits)
qed

lemma adds_trans: "links_added_empty a b \<Longrightarrow> links_added_empty b c \<Longrightarrow> links_added_empty a c"
  unfolding links_added_empty_def by blast

lemma adds_refl: "links_added_empty a a"
  unfolding links_added_empty_def by blast

lemma adds_add_entry:
  "links_added_empty db (snd (add_entry_to_database db entry ftype parent is_sym))"
  unfolding links_added_empty_def add_entry_to_database_def
  by (auto simp: Let_def split: sum.splits option.splits if_splits dest!: insert_file_new_row)

lemma scan_adds:
  "links_added_empty db (scan_directory listing parent db)"
  "links_added_empty db (scan_entries entries parent db)"
  "links_added_empty db (scan_entry node parent db)"
proof (induction listing parent db and entries parent db and node parent db
    rule: scan_directory_scan_entries_scan_entry.induct)
  case (1 parent db)
  then show ?case by (simp add: adds_refl)
next
  case (2 entries parent db)
  then show ?case by simp
next
  case (3 parent db)
  then show ?case by (simp add: adds_refl)
next
  case (4 entry entries parent db)
  then show ?case by (auto intro: adds_trans)
next
  case (5 entry is_dir is_file is_link listing parent db)
  show ?case
  proof (cases is_dir)
    case True
    obtain new_id db1 where a: "add_entry_to_database db entry KFolder parent 0 = (new_id, db1)"
      by (cases "add_entry_to_database db entry KFolder parent 0")
    with adds_add_entry [of db entry KFolder parent 0] have "links_added_empty db db1" by simp
    moreover from "5.IH" [OF True a [symmetric]] have "links_added_empty db1 (scan_directory listing new_id db1)" .
    ultimately show ?thesis using True a by (auto intro: adds_trans)
  next
    case False
    then show ?thesis by (auto simp: adds_add_entry adds_refl)
  qed
qed

lemma demo_tree_scanned: "scan_directory demo_tree None [] = demo_tree_rows"
  by (simp add: demo_tree_def demo_tree_rows_def add_entry_to_database_def photos_entry_def
      link_entry_def insert_file_def next_id_def get_file_by_path_def scanned_row_def)

text \<open>
  C8, amended. A row that \<open>add_entry_to_database\<close> adds carries the name, the path and
  the type it was given and the status \<^verbatim>\<open>pending\<close>; its size is 0 if the type is
  symlink, and otherwise, for folders as for files, the \<^verbatim>\<open>st_size\<close> that
  \<^verbatim>\<open>entry.stat()\<close> returned. Every row of kind symlink that a scan adds to the table
  has size 0.
\<close>

theorem C8_sizes_of_scanned_entries:
  "(\<forall>row \<in> set (snd (add_entry_to_database db entry ftype parent is_sym)). row \<notin> set db \<longrightarrow>
      file_type row = ftype \<and> file_name row = entry_name entry \<and>
      file_path row = entry_path entry \<and> file_status row = Pending \<and>
      (ftype = KSymlink \<longrightarrow> file_size row = 0) \<and>
      (ftype \<noteq> KSymlink \<longrightarrow> entry_stat entry = Inr (file_size row))) \<and>
   (\<forall>row \<in> set (scan_directory listing parent' db'). row \<notin> set db' \<longrightarrow>
      file_type row = KSymlink \<longrightarrow> file_size row = 0)"
  using add_entry_new_row [of _ db entry ftype parent is_sym]
    scan_adds(1) [of db' listing parent']
  unfolding links_added_empty_def by blast

theorem C8_witness:
  "snd (add_entry_to_database [] link_entry KSymlink None 1)
     = [scanned_row 1 ''link'' ''/mnt/link'' 0 KSymlink] \<and>
   file_size (scanned_row 1 ''link'' ''/mnt/link'' 0 KSymlink) = 0 \<and>
   scan_directory demo_tree None [] = demo_tree_rows \<and>
   map file_size (filter (\<lambda>r. file_type r = KSymlink) demo_tree_rows) = [0]"
  using C8_sizes_of_scanned_entries [of "[]" link_entry KSymlink None 1 demo_tree None "[]"]
  by (simp add: demo_tree_scanned)
    (simp add: demo_tree_rows_def add_entry_to_database_def
      link_entry_def insert_file_def next_id_def get_file_by_path_def scanned_row_def)

text \<open>
  C8 as stated fails for folders: scanning a folder that holds a subfolder whose
  \<^verbatim>\<open>st_size\<close> is 4096 enters the subfolder with size 4096.
\<close>

theorem C8_counterexample:
  "scan_directory demo_tree None [] = demo_tree_rows \<and>
   map (\<lambda>r. (file_type r, file_size r)) demo_tree_rows =
     [(KFile, 12), (KFolder, 4096), (KFile, 2048), (KSymlink, 0)]"
  by (simp add: demo_tree_scanned) (simp add: demo_tree_rows_def scanned_row_def)

end
